theory Spec2Isabelle
  imports Main "HOL-Library.Sublist"
begin

section \<open>Texts, bytes and exceptions\<close>

text \<open>
  The chatbot relay of \<^verbatim>\<open>src/main.py\<close> keeps one process-wide conversation, forwards it to a
  model backend over HTTP and stores it in \<^verbatim>\<open>chatlog.json\<close>.

  A Python \<^verbatim>\<open>str\<close> is represented by its UTF-8 encoding: a \<open>string\<close> whose characters are
  the bytes of the text. A \<^verbatim>\<open>bytes\<close> value is a \<open>string\<close> too, so decoding as UTF-8 is the
  identity on the byte sequences that are valid UTF-8 and raises on the others. A code point
  left over from an unpaired surrogate escape is kept in the three-byte form of its number.

  Every exception the program can meet is a value of \<open>pyexn\<close>; a computation that may raise
  returns \<open>pyexn + 'a\<close>, with \<open>Inl\<close> for the exception.
\<close>

datatype pyexn =
    JSONDecodeError
  | AttributeError
  | TypeError
  | KeyError
  | UnicodeDecodeError
  | TimeoutException
  | ConnectError

definition byte :: "char \<Rightarrow> nat" where
  "byte c = of_char c"

definition cont :: "char \<Rightarrow> bool" where
  "cont c = (0x80 \<le> byte c \<and> byte c < 0xC0)"

text \<open>The byte sequences the strict UTF-8 codec accepts (no overlong form, no surrogate,
  nothing above U+10FFFF).\<close>

fun utf8_valid :: "string \<Rightarrow> bool" where
  "utf8_valid [] = True"
| "utf8_valid (a # s) =
    (if byte a < 0x80 then utf8_valid s
     else if byte a < 0xC2 then False
     else if byte a < 0xE0 then
       (case s of b # s1 \<Rightarrow> cont b \<and> utf8_valid s1 | _ \<Rightarrow> False)
     else if byte a < 0xF0 then
       (case s of
          b # c # s2 \<Rightarrow>
            cont b \<and> cont c
            \<and> (if byte a = 0xE0 then 0xA0 \<le> byte b else True)
            \<and> (if byte a = 0xED then byte b < 0xA0 else True)
            \<and> utf8_valid s2
        | _ \<Rightarrow> False)
     else if byte a < 0xF5 then
       (case s of
          b # c # d # s3 \<Rightarrow>
            cont b \<and> cont c \<and> cont d
            \<and> (if byte a = 0xF0 then 0x90 \<le> byte b else True)
            \<and> (if byte a = 0xF4 then byte b < 0x90 else True)
            \<and> utf8_valid s3
        | _ \<Rightarrow> False)
     else False)"

text \<open>\<^verbatim>\<open>bytes.decode("utf-8")\<close>.\<close>

definition decode_utf8 :: "string \<Rightarrow> pyexn + string" where
  "decode_utf8 b = (if utf8_valid b then Inr b else Inl UnicodeDecodeError)"

definition utf8_encode :: "nat \<Rightarrow> string" where
  "utf8_encode n =
    (if n < 0x80 then [char_of n]
     else if n < 0x800 then [char_of (0xC0 + n div 0x40), char_of (0x80 + n mod 0x40)]
     else if n < 0x10000 then
       [char_of (0xE0 + n div 0x1000), char_of (0x80 + n div 0x40 mod 0x40),
        char_of (0x80 + n mod 0x40)]
     else
       [char_of (0xF0 + n div 0x40000), char_of (0x80 + n div 0x1000 mod 0x40),
        char_of (0x80 + n div 0x40 mod 0x40), char_of (0x80 + n mod 0x40)])"

text \<open>The characters \<^verbatim>\<open>str.strip()\<close> removes, those for which \<^verbatim>\<open>str.isspace()\<close> holds, each
  in UTF-8: U+0009 to U+000D, U+001C to U+0020, U+0085, U+00A0, U+1680, U+2000 to U+200A,
  U+2028, U+2029, U+202F, U+205F and U+3000.\<close>

definition whitespace :: "string list" where
  "whitespace =
    [[CHR 0x09], [CHR 0x0A], [CHR 0x0B], [CHR 0x0C], [CHR 0x0D],
     [CHR 0x1C], [CHR 0x1D], [CHR 0x1E], [CHR 0x1F], [CHR 0x20],
     [CHR 0xC2, CHR 0x85], [CHR 0xC2, CHR 0xA0], [CHR 0xE1, CHR 0x9A, CHR 0x80],
     [CHR 0xE2, CHR 0x80, CHR 0x80], [CHR 0xE2, CHR 0x80, CHR 0x81],
     [CHR 0xE2, CHR 0x80, CHR 0x82], [CHR 0xE2, CHR 0x80, CHR 0x83],
     [CHR 0xE2, CHR 0x80, CHR 0x84], [CHR 0xE2, CHR 0x80, CHR 0x85],
     [CHR 0xE2, CHR 0x80, CHR 0x86], [CHR 0xE2, CHR 0x80, CHR 0x87],
     [CHR 0xE2, CHR 0x80, CHR 0x88], [CHR 0xE2, CHR 0x80, CHR 0x89],
     [CHR 0xE2, CHR 0x80, CHR 0x8A], [CHR 0xE2, CHR 0x80, CHR 0xA8],
     [CHR 0xE2, CHR 0x80, CHR 0xA9], [CHR 0xE2, CHR 0x80, CHR 0xAF],
     [CHR 0xE2, CHR 0x81, CHR 0x9F], [CHR 0xE3, CHR 0x80, CHR 0x80]]"

lemma whitespace_nonempty: "w \<in> set whitespace \<Longrightarrow> 0 < length w"
  by (auto simp: whitespace_def)

function lstrip :: "string \<Rightarrow> string" where
  "lstrip s = (case find (\<lambda>w. prefix w s) whitespace of
                 None \<Rightarrow> s
               | Some w \<Rightarrow> lstrip (drop (length w) s))"
  by pat_completeness auto
termination
proof (relation "measure length")
  fix s w
  assume "find (\<lambda>w. prefix w s) whitespace = Some w"
  then have "w \<in> set whitespace" and "prefix w s"
    by (auto simp: find_Some_iff)
  then show "(drop (length w) s, s) \<in> measure length"
    using whitespace_nonempty [of w] by (auto simp: prefix_def)
qed simp

function rstrip :: "string \<Rightarrow> string" where
  "rstrip s = (case find (\<lambda>w. suffix w s) whitespace of
                 None \<Rightarrow> s
               | Some w \<Rightarrow> rstrip (take (length s - length w) s))"
  by pat_completeness auto
termination
proof (relation "measure length")
  fix s w
  assume "find (\<lambda>w. suffix w s) whitespace = Some w"
  then have "w \<in> set whitespace" and "suffix w s"
    by (auto simp: find_Some_iff)
  then show "(take (length s - length w) s, s) \<in> measure length"
    using whitespace_nonempty [of w] by (auto simp: suffix_def)
qed simp

declare lstrip.simps [simp del] rstrip.simps [simp del]

definition strip :: "string \<Rightarrow> string" where
  "strip s = rstrip (lstrip s)"

section \<open>JSON values and \<^verbatim>\<open>json.loads\<close>\<close>

text \<open>
  What \<^verbatim>\<open>json.loads\<close> returns: \<^verbatim>\<open>None\<close>, a \<^verbatim>\<open>bool\<close>, an \<^verbatim>\<open>int\<close>, a \<^verbatim>\<open>float\<close>, a \<^verbatim>\<open>str\<close>, a
  \<^verbatim>\<open>list\<close> or a \<^verbatim>\<open>dict\<close> with \<^verbatim>\<open>str\<close> keys (an association list in insertion order, keys
  distinct). A float is kept as the literal it was read from; the program only tests it for
  truth and writes it back.
\<close>

datatype json =
    JNull
  | JBool bool
  | JInt int
  | JFloat string
  | JStr string
  | JArr "json list"
  | JObj "(string \<times> json) list"

definition json_ws :: "char \<Rightarrow> bool" where
  "json_ws c = (c = CHR '' '' \<or> c = CHR 0x09 \<or> c = CHR 0x0A \<or> c = CHR 0x0D)"

definition skip_ws :: "string \<Rightarrow> string" where
  "skip_ws s = dropWhile json_ws s"

definition hex_val :: "char \<Rightarrow> nat option" where
  "hex_val c =
    (if 0x30 \<le> byte c \<and> byte c \<le> 0x39 then Some (byte c - 0x30)
     else if 0x61 \<le> byte c \<and> byte c \<le> 0x66 then Some (byte c - 0x61 + 10)
     else if 0x41 \<le> byte c \<and> byte c \<le> 0x46 then Some (byte c - 0x41 + 10)
     else None)"

definition hex4 :: "char \<Rightarrow> char \<Rightarrow> char \<Rightarrow> char \<Rightarrow> nat option" where
  "hex4 a b c d =
    (case (hex_val a, hex_val b, hex_val c, hex_val d) of
       (Some w, Some x, Some y, Some z) \<Rightarrow> Some (((w * 16 + x) * 16 + y) * 16 + z)
     | _ \<Rightarrow> None)"

definition simple_escape :: "char \<Rightarrow> char option" where
  "simple_escape e =
    (if e = CHR 0x22 then Some (CHR 0x22)
     else if e = CHR 0x5C then Some (CHR 0x5C)
     else if e = CHR ''/'' then Some (CHR ''/'')
     else if e = CHR ''b'' then Some (CHR 0x08)
     else if e = CHR ''f'' then Some (CHR 0x0C)
     else if e = CHR ''n'' then Some (CHR 0x0A)
     else if e = CHR ''r'' then Some (CHR 0x0D)
     else if e = CHR ''t'' then Some (CHR 0x09)
     else None)"

text \<open>What follows a backslash inside a string: the text it stands for and the rest of the
  input. A high surrogate followed by an escaped low surrogate is one code point.\<close>

definition unescape :: "string \<Rightarrow> (string \<times> string) option" where
  "unescape s =
    (case s of
       [] \<Rightarrow> None
     | e # s1 \<Rightarrow>
         if e = CHR ''u'' then
           (case s1 of
              h1 # h2 # h3 # h4 # s2 \<Rightarrow>
                (case hex4 h1 h2 h3 h4 of
                   None \<Rightarrow> None
                 | Some u \<Rightarrow>
                     if 0xD800 \<le> u \<and> u \<le> 0xDBFF then
                       (case s2 of
                          b # v # k1 # k2 # k3 # k4 # s3 \<Rightarrow>
                            if b = CHR 0x5C \<and> v = CHR ''u'' then
                              (case hex4 k1 k2 k3 k4 of
                                 None \<Rightarrow> None
                               | Some u2 \<Rightarrow>
                                   if 0xDC00 \<le> u2 \<and> u2 \<le> 0xDFFF then
                                     Some (utf8_encode
                                            (0x10000 + (u - 0xD800) * 0x400 + (u2 - 0xDC00)), s3)
                                   else Some (utf8_encode u, s2))
                            else Some (utf8_encode u, s2)
                        | _ \<Rightarrow> Some (utf8_encode u, s2))
                     else Some (utf8_encode u, s2))
            | _ \<Rightarrow> None)
         else
           (case simple_escape e of
              None \<Rightarrow> None
            | Some x \<Rightarrow> Some ([x], s1)))"

lemma unescape_shorter: "unescape s = Some (t, r) \<Longrightarrow> length r < length s"
  unfolding unescape_def
  by (auto split: list.splits if_splits option.splits)

definition emit :: "string \<Rightarrow> (string \<times> string) option \<Rightarrow> (string \<times> string) option" where
  "emit t r = (case r of None \<Rightarrow> None | Some (u, rest) \<Rightarrow> Some (t @ u, rest))"

text \<open>The text of a string literal, read from just after its opening quote (strict mode:
  a raw control character is an error), and the input after its closing quote.\<close>

function scanstring :: "string \<Rightarrow> (string \<times> string) option" where
  "scanstring [] = None"
| "scanstring (c # s) =
    (if c = CHR 0x22 then Some ([], s)
     else if c = CHR 0x5C then
       (case unescape s of
          None \<Rightarrow> None
        | Some (t, r) \<Rightarrow> emit t (scanstring r))
     else if byte c < 0x20 then None
     else emit [c] (scanstring s))"
  by pat_completeness auto
termination
  by (relation "measure length") (auto dest: unescape_shorter)

lemma emit_Some: "emit t x = Some (u, r) \<Longrightarrow> \<exists>u'. x = Some (u', r)"
  by (auto simp: emit_def split: option.splits)

lemma scanstring_shorter: "scanstring s = Some (t, r) \<Longrightarrow> length r < length s"
proof (induction s arbitrary: t r rule: scanstring.induct)
  case 1
  then show ?case by simp
next
  case (2 c s)
  show ?case
  proof (cases "c = CHR 0x22")
    case True
    with "2.prems" show ?thesis by simp
  next
    case quote: False
    show ?thesis
    proof (cases "c = CHR 0x5C")
      case True
      with quote "2.prems" obtain t' r' u' where
        u: "unescape s = Some (t', r')" and s: "scanstring r' = Some (u', r)"
        by (auto split: option.splits dest: emit_Some)
      from "2.IH"(1) [OF quote True u refl s] unescape_shorter [OF u]
      show ?thesis by simp
    next
      case False
      with quote "2.prems" obtain u' where "\<not> byte c < 0x20" and s: "scanstring s = Some (u', r)"
        by (auto split: if_splits dest: emit_Some)
      with "2.IH"(2) [OF quote False] show ?thesis by fastforce
    qed
  qed
qed

definition digit :: "char \<Rightarrow> bool" where
  "digit c = (0x30 \<le> byte c \<and> byte c \<le> 0x39)"

definition nat_of_digits :: "string \<Rightarrow> nat" where
  "nat_of_digits ds = foldl (\<lambda>n c. 10 * n + (byte c - 0x30)) 0 ds"

definition scan_fraction :: "string \<Rightarrow> string \<times> string" where
  "scan_fraction s =
    (case s of
       p # d # t \<Rightarrow>
         if p = CHR ''.'' \<and> digit d then (p # d # takeWhile digit t, dropWhile digit t)
         else ([], s)
     | _ \<Rightarrow> ([], s))"

definition scan_exponent :: "string \<Rightarrow> string \<times> string" where
  "scan_exponent s =
    (case s of
       e # g # t \<Rightarrow>
         if e = CHR ''e'' \<or> e = CHR ''E'' then
           (if digit g then (e # g # takeWhile digit t, dropWhile digit t)
            else if g = CHR ''+'' \<or> g = CHR ''-'' then
              (case t of
                 d # t' \<Rightarrow>
                   if digit d then (e # g # d # takeWhile digit t', dropWhile digit t')
                   else ([], s)
               | [] \<Rightarrow> ([], s))
            else ([], s))
         else ([], s)
     | _ \<Rightarrow> ([], s))"

text \<open>A number: an optional minus, \<^verbatim>\<open>0\<close> or a digit string that does not start with
  \<^verbatim>\<open>0\<close>, an optional fraction, an optional exponent. With neither fraction nor exponent it
  is an \<^verbatim>\<open>int\<close>.\<close>

definition scan_number :: "string \<Rightarrow> (json \<times> string) option" where
  "scan_number s =
    (let (sign, s0) = (case s of
                         c # r \<Rightarrow> if c = CHR ''-'' then ([c], r) else ([], s)
                       | [] \<Rightarrow> ([], s))
     in case s0 of
          [] \<Rightarrow> None
        | d # r \<Rightarrow>
            if \<not> digit d then None
            else
              let (ds, r1) = (if d = CHR ''0'' then ([d], r)
                              else (d # takeWhile digit r, dropWhile digit r));
                  (frac, r2) = scan_fraction r1;
                  (ex, r3) = scan_exponent r2
              in if frac = [] \<and> ex = [] then
                   Some (JInt (if sign = [] then int (nat_of_digits ds)
                               else - int (nat_of_digits ds)), r3)
                 else Some (JFloat (sign @ ds @ frac @ ex), r3))"

text \<open>\<^verbatim>\<open>d[k] = v\<close> on a dict: a key that is there keeps its place.\<close>

definition dict_set :: "(string \<times> json) list \<Rightarrow> string \<Rightarrow> json \<Rightarrow> (string \<times> json) list" where
  "dict_set d k v =
    (if k \<in> fst ` set d then map (\<lambda>(k', v'). if k' = k then (k', v) else (k', v')) d
     else d @ [(k, v)])"

lemma skip_ws_length: "length (skip_ws s) \<le> length s"
  by (simp add: skip_ws_def length_dropWhile_le)

lemma skip_ws_Cons: "skip_ws s = c # r \<Longrightarrow> length r < length s"
  using skip_ws_length [of s] by simp

text \<open>
  The scanner: \<open>parse_value\<close> reads one value at the head of the input, \<open>parse_array\<close> the
  items of a non-empty array up to its bracket, \<open>parse_object\<close> the members of a non-empty
  object up to its brace. \<open>None\<close> is \<^verbatim>\<open>JSONDecodeError\<close>. The tests \<open>length r < length s\<close>
  only make the recursion well-founded: a value read is never empty.
\<close>

function parse_value :: "string \<Rightarrow> (json \<times> string) option"
  and parse_array :: "string \<Rightarrow> (json list \<times> string) option"
  and parse_object ::
    "(string \<times> json) list \<Rightarrow> string \<Rightarrow> ((string \<times> json) list \<times> string) option"
where
  "parse_value [] = None"
| "parse_value (c # r) =
    (if c = CHR 0x22 then
       (case scanstring r of None \<Rightarrow> None | Some (t, r') \<Rightarrow> Some (JStr t, r'))
     else if c = CHR ''{'' then
       (case skip_ws r of
          [] \<Rightarrow> None
        | c' # r' \<Rightarrow>
            if c' = CHR ''}'' then Some (JObj [], r')
            else (case parse_object [] (c' # r') of
                    None \<Rightarrow> None
                  | Some (d, r'') \<Rightarrow> Some (JObj d, r'')))
     else if c = CHR ''['' then
       (case skip_ws r of
          [] \<Rightarrow> None
        | c' # r' \<Rightarrow>
            if c' = CHR '']'' then Some (JArr [], r')
            else (case parse_array (c' # r') of
                    None \<Rightarrow> None
                  | Some (vs, r'') \<Rightarrow> Some (JArr vs, r'')))
     else if prefix ''null'' (c # r) then Some (JNull, drop 3 r)
     else if prefix ''true'' (c # r) then Some (JBool True, drop 3 r)
     else if prefix ''false'' (c # r) then Some (JBool False, drop 4 r)
     else (case scan_number (c # r) of
             Some x \<Rightarrow> Some x
           | None \<Rightarrow>
               if prefix ''NaN'' (c # r) then Some (JFloat ''NaN'', drop 2 r)
               else if prefix ''Infinity'' (c # r) then Some (JFloat ''Infinity'', drop 7 r)
               else if prefix ''-Infinity'' (c # r) then Some (JFloat ''-Infinity'', drop 8 r)
               else None))"
| "parse_array s =
    (case parse_value s of
       None \<Rightarrow> None
     | Some (v, r) \<Rightarrow>
         if length r < length s then
           (case skip_ws r of
              [] \<Rightarrow> None
            | c # r' \<Rightarrow>
                if c = CHR '']'' then Some ([v], r')
                else if c = CHR '','' then
                  (case parse_array (skip_ws r') of
                     None \<Rightarrow> None
                   | Some (vs, r'') \<Rightarrow> Some (v # vs, r''))
                else None)
         else None)"
| "parse_object d [] = None"
| "parse_object d (q # s) =
    (if q \<noteq> CHR 0x22 then None
     else
       (case scanstring s of
          None \<Rightarrow> None
        | Some (k, r) \<Rightarrow>
            (case skip_ws r of
               [] \<Rightarrow> None
             | c # r1 \<Rightarrow>
                 if c \<noteq> CHR '':'' then None
                 else
                   (case parse_value (skip_ws r1) of
                      None \<Rightarrow> None
                    | Some (v, r2) \<Rightarrow>
                        if length r2 < length s then
                          (case skip_ws r2 of
                             [] \<Rightarrow> None
                           | c' # r3 \<Rightarrow>
                               if c' = CHR ''}'' then Some (dict_set d k v, r3)
                               else if c' = CHR '','' then
                                 parse_object (dict_set d k v) (skip_ws r3)
                               else None)
                        else None))))"
  by pat_completeness auto
termination
proof (relation "inv_image (less_than <*lex*> less_than)
          (\<lambda>x. case x of
                  Inl s \<Rightarrow> (length s, 0::nat)
                | Inr (Inl s) \<Rightarrow> (length s, 1)
                | Inr (Inr (d, s)) \<Rightarrow> (length s, 1))", goal_cases)
  case 1
  show ?case by auto
next
  case (2 c r c' r')
  then show ?case by (auto dest: skip_ws_Cons)
next
  case (3 c r c' r')
  then show ?case by (auto dest: skip_ws_Cons)
next
  case (4 s)
  show ?case by simp
next
  case (5 s x v r c r')
  from 5 skip_ws_Cons [of r c r'] skip_ws_length [of r']
  show ?case by simp
next
  case (6 d q s x k r c r1)
  from scanstring_shorter [of s k r] skip_ws_Cons [of r c r1] skip_ws_length [of r1] 6
  show ?case by simp
next
  case (7 d q s x k r c r1 y v r2 c' r3)
  from 7 skip_ws_Cons [of r2 c' r3] skip_ws_length [of r3]
  show ?case by simp
qed

declare parse_array.simps [simp del]

text \<open>\<^verbatim>\<open>json.loads\<close> on a \<^verbatim>\<open>str\<close>: one value, white space around it, nothing else. The
  limits of the interpreter are left out: on a text nested about as deep as the recursion limit
  the function raises \<^verbatim>\<open>RecursionError\<close>, and on an integer of more than 4300 digits it raises
  \<^verbatim>\<open>ValueError\<close>; every text the properties below evaluate or admit is far from both.\<close>

definition json_loads :: "string \<Rightarrow> pyexn + json" where
  "json_loads s =
    (case parse_value (skip_ws s) of
       None \<Rightarrow> Inl JSONDecodeError
     | Some (v, r) \<Rightarrow> if skip_ws r = [] then Inr v else Inl JSONDecodeError)"

section \<open>The operations of Python the program applies to JSON values\<close>

text \<open>Whether the float a literal denotes is zero: its digits are all zero, or its value is at
  most 2 to the power -1075, half the least positive double, and rounds to zero.\<close>

definition float_is_zero :: "string \<Rightarrow> bool" where
  "float_is_zero l =
    (let b = (case l of c # r \<Rightarrow> if c = CHR ''-'' then r else l | [] \<Rightarrow> l);
         ip = takeWhile digit b;
         (frac, r2) = scan_fraction (dropWhile digit b);
         fp = drop 1 frac;
         ex = (case r2 of
                 e # g # t \<Rightarrow>
                   if g = CHR ''-'' then - int (nat_of_digits t)
                   else if g = CHR ''+'' then int (nat_of_digits t)
                   else int (nat_of_digits (g # t))
               | _ \<Rightarrow> 0);
         m = int (nat_of_digits (ip @ fp));
         e10 = ex - int (length fp)
     in ip \<noteq> [] \<and> (m = 0 \<or> (e10 < 0 \<and> m * 2 ^ 1075 \<le> 10 ^ nat (- e10))))"

text \<open>The truth value of \<^verbatim>\<open>if x:\<close>.\<close>

fun truthy :: "json \<Rightarrow> bool" where
  "truthy JNull = False"
| "truthy (JBool b) = b"
| "truthy (JInt i) = (i \<noteq> 0)"
| "truthy (JFloat l) = (\<not> float_is_zero l)"
| "truthy (JStr s) = (s \<noteq> [])"
| "truthy (JArr vs) = (vs \<noteq> [])"
| "truthy (JObj d) = (d \<noteq> [])"

text \<open>\<^verbatim>\<open>x.get(k, dflt)\<close>: only a dict has the method.\<close>

definition py_get :: "json \<Rightarrow> string \<Rightarrow> json \<Rightarrow> pyexn + json" where
  "py_get x k dflt =
    (case x of
       JObj d \<Rightarrow> Inr (case map_of d k of None \<Rightarrow> dflt | Some v \<Rightarrow> v)
     | _ \<Rightarrow> Inl AttributeError)"

text \<open>\<^verbatim>\<open>x[k]\<close> for a \<^verbatim>\<open>str\<close> key \<open>k\<close>.\<close>

definition py_getitem :: "json \<Rightarrow> string \<Rightarrow> pyexn + json" where
  "py_getitem x k =
    (case x of
       JObj d \<Rightarrow> (case map_of d k of None \<Rightarrow> Inl KeyError | Some v \<Rightarrow> Inr v)
     | _ \<Rightarrow> Inl TypeError)"

text \<open>\<^verbatim>\<open>x["message"]["content"]\<close>.\<close>

definition message_content :: "json \<Rightarrow> pyexn + json" where
  "message_content x =
    (case py_getitem x ''message'' of
       Inl e \<Rightarrow> Inl e
     | Inr m \<Rightarrow> py_getitem m ''content'')"

text \<open>\<^verbatim>\<open>s + x\<close> for a \<^verbatim>\<open>str\<close> \<open>s\<close>.\<close>

definition py_str_add :: "string \<Rightarrow> json \<Rightarrow> pyexn + string" where
  "py_str_add s x = (case x of JStr t \<Rightarrow> Inr (s @ t) | _ \<Rightarrow> Inl TypeError)"

text \<open>\<^verbatim>\<open>str(n)\<close> for an \<^verbatim>\<open>int\<close>.\<close>

function str_nat :: "nat \<Rightarrow> string" where
  "str_nat n = (if n < 10 then [char_of (0x30 + n)]
                else str_nat (n div 10) @ [char_of (0x30 + n mod 10)])"
  by pat_completeness auto
termination
  by (relation "measure id") auto

declare str_nat.simps [simp del]

definition str_int :: "int \<Rightarrow> string" where
  "str_int i = (if i < 0 then CHR ''-'' # str_nat (nat (- i)) else str_nat (nat i))"

section \<open>\<^verbatim>\<open>json.dump\<close> with \<^verbatim>\<open>ensure_ascii=False, indent=2\<close>\<close>

definition hex_digit :: "nat \<Rightarrow> char" where
  "hex_digit n = (if n < 10 then char_of (0x30 + n) else char_of (0x61 + (n - 10)))"

definition escape_char :: "char \<Rightarrow> string" where
  "escape_char c =
    (if c = CHR 0x22 then [CHR 0x5C, CHR 0x22]
     else if c = CHR 0x5C then [CHR 0x5C, CHR 0x5C]
     else if c = CHR 0x0A then [CHR 0x5C, CHR ''n'']
     else if c = CHR 0x0D then [CHR 0x5C, CHR ''r'']
     else if c = CHR 0x09 then [CHR 0x5C, CHR ''t'']
     else if c = CHR 0x08 then [CHR 0x5C, CHR ''b'']
     else if c = CHR 0x0C then [CHR 0x5C, CHR ''f'']
     else if byte c < 0x20 then
       [CHR 0x5C, CHR ''u'', CHR ''0'', CHR ''0'',
        hex_digit (byte c div 16), hex_digit (byte c mod 16)]
     else [c])"

definition encode_basestring :: "string \<Rightarrow> string" where
  "encode_basestring s = CHR 0x22 # concat (map escape_char s) @ [CHR 0x22]"

definition newline_indent :: "nat \<Rightarrow> string" where
  "newline_indent lvl = CHR 0x0A # replicate (2 * lvl) (CHR '' '')"

text \<open>The text written for a value at nesting level \<open>lvl\<close>; items are separated by a comma
  and a new line, a key from its value by a colon and a space. A float is written as the
  literal it was read from (Python writes the shortest literal of the same double; no
  property below depends on the text written for a float).\<close>

fun iterencode :: "nat \<Rightarrow> json \<Rightarrow> string"
  and iterencode_list :: "nat \<Rightarrow> json list \<Rightarrow> string"
  and iterencode_dict :: "nat \<Rightarrow> (string \<times> json) list \<Rightarrow> string"
where
  "iterencode lvl JNull = ''null''"
| "iterencode lvl (JBool b) = (if b then ''true'' else ''false'')"
| "iterencode lvl (JInt i) = str_int i"
| "iterencode lvl (JFloat l) = l"
| "iterencode lvl (JStr s) = encode_basestring s"
| "iterencode lvl (JArr vs) =
    (if vs = [] then ''[]''
     else ''['' @ newline_indent (Suc lvl) @ iterencode_list (Suc lvl) vs
          @ newline_indent lvl @ '']'')"
| "iterencode lvl (JObj d) =
    (if d = [] then ''{}''
     else ''{'' @ newline_indent (Suc lvl) @ iterencode_dict (Suc lvl) d
          @ newline_indent lvl @ ''}'')"
| "iterencode_list lvl [] = []"
| "iterencode_list lvl [v] = iterencode lvl v"
| "iterencode_list lvl (v # w # vs) =
    iterencode lvl v @ '','' @ newline_indent lvl @ iterencode_list lvl (w # vs)"
| "iterencode_dict lvl [] = []"
| "iterencode_dict lvl [(k, v)] = encode_basestring k @ '': '' @ iterencode lvl v"
| "iterencode_dict lvl ((k, v) # kv # d) =
    encode_basestring k @ '': '' @ iterencode lvl v @ '','' @ newline_indent lvl
    @ iterencode_dict lvl (kv # d)"

definition json_dump :: "json \<Rightarrow> string" where
  "json_dump v = iterencode 0 v"

section \<open>The conversation store\<close>

text \<open>
  The state of the process and of its disk: the global \<^verbatim>\<open>conversation_history\<close> and the
  content of \<^verbatim>\<open>chatlog.json\<close> (\<open>None\<close> when the file does not exist). Writing the file is
  taken to succeed: the disk accepts the text, and the text can be encoded, which is so when
  no string of the history holds an unpaired surrogate, that is, when the dump is valid UTF-8.
  A line end is one \<^verbatim>\<open>\n\<close> as on POSIX.
\<close>

record state =
  conversation_history :: "json list"
  chatlog :: "string option"

definition SYSTEM_PROMPT :: string where
  "SYSTEM_PROMPT = ''You are a friendly and helpful AI assistant.''"

text \<open>The dict \<^verbatim>\<open>{"role": role, "content": content}\<close>.\<close>

definition turn :: "string \<Rightarrow> json \<Rightarrow> json" where
  "turn role content = JObj [(''role'', JStr role), (''content'', content)]"

definition reset_history :: "state \<Rightarrow> state" where
  "reset_history st = st\<lparr>conversation_history := [turn ''system'' (JStr SYSTEM_PROMPT)]\<rparr>"

definition save_history_to_file :: "state \<Rightarrow> state" where
  "save_history_to_file st = st\<lparr>chatlog := Some (json_dump (JArr (conversation_history st)))\<rparr>"

text \<open>The body of the \<^verbatim>\<open>try\<close> of \<^verbatim>\<open>load_history_from_file\<close>, for a file that exists.\<close>

definition read_history :: "state \<Rightarrow> string \<Rightarrow> pyexn + state" where
  "read_history st file =
    (case decode_utf8 file of
       Inl e \<Rightarrow> Inl e
     | Inr text \<Rightarrow>
         let content = strip text in
         if content \<noteq> [] then
           (case json_loads content of
              Inl e \<Rightarrow> Inl e
            | Inr loaded_history \<Rightarrow>
                (case loaded_history of
                   JArr (first # rest) \<Rightarrow>
                     (case py_get first ''role'' JNull of
                        Inl e \<Rightarrow> Inl e
                      | Inr role \<Rightarrow>
                          if role = JStr ''system'' then
                            Inr (st\<lparr>conversation_history := first # rest\<rparr>)
                          else Inr (reset_history st))
                 | _ \<Rightarrow> Inr (reset_history st)))
         else Inr (reset_history st))"

definition load_history_from_file :: "state \<Rightarrow> pyexn + state" where
  "load_history_from_file st =
    (case chatlog st of
       Some file \<Rightarrow>
         (case read_history st file of
            Inl e \<Rightarrow>
              if e = JSONDecodeError \<or> e = TypeError then Inr (reset_history st) else Inl e
          | Inr st' \<Rightarrow> Inr st')
     | None \<Rightarrow> Inr (reset_history st))"

text \<open>Importing the module: the history starts empty and is loaded from the file.\<close>

definition startup :: "string option \<Rightarrow> pyexn + state" where
  "startup file = load_history_from_file \<lparr>conversation_history = [], chatlog = file\<rparr>"

section \<open>The chat relay\<close>

record chat_request =
  message :: string
  model :: "string option"
  stream :: "bool option"
  temperature :: "string option"

text \<open>A response of the backend as the HTTP client hands it over: \<open>response_json\<close> is what
  \<^verbatim>\<open>response.json()\<close> returns or raises.\<close>

record http_response =
  status_code :: int
  response_text :: string
  response_json :: "pyexn + json"

text \<open>
  What the backend does during one call: \<open>post\<close> is the outcome of \<^verbatim>\<open>client.post\<close>,
  \<open>chunks\<close> are the chunks \<^verbatim>\<open>response.aiter_bytes()\<close> yields, in order, and \<open>broken\<close> is
  the exception that ends the chunk sequence when the connection fails.
\<close>

record backend =
  post :: "pyexn + http_response"
  chunks :: "string list"
  broken :: "pyexn option"

text \<open>The body of the \<^verbatim>\<open>try\<close> of \<^verbatim>\<open>stream_generator\<close>: the reply collected so far, after
  one decoded chunk. Only \<^verbatim>\<open>JSONDecodeError\<close> is handled.\<close>

definition parse_chunk :: "string \<Rightarrow> string \<Rightarrow> pyexn + string" where
  "parse_chunk decoded_chunk full_reply_content =
    (let clean_chunk = strip decoded_chunk in
     if clean_chunk \<noteq> [] then
       (case json_loads clean_chunk of
          Inl e \<Rightarrow> if e = JSONDecodeError then Inr full_reply_content else Inl e
        | Inr json_line \<Rightarrow>
            (case py_get json_line ''message'' (JObj []) of
               Inl e \<Rightarrow> Inl e
             | Inr m \<Rightarrow>
                 (case py_get m ''content'' JNull of
                    Inl e \<Rightarrow> Inl e
                  | Inr c \<Rightarrow>
                      if truthy c then
                        (case message_content json_line of
                           Inl e \<Rightarrow> Inl e
                         | Inr c' \<Rightarrow> py_str_add full_reply_content c')
                      else Inr full_reply_content)))
     else Inr full_reply_content)"

text \<open>The loop of \<^verbatim>\<open>stream_generator\<close>: the chunks yielded to the caller, and the reply
  collected or the exception that ended the loop.\<close>

fun stream_loop :: "string list \<Rightarrow> pyexn option \<Rightarrow> string \<Rightarrow> string list \<times> (pyexn + string)" where
  "stream_loop [] fin full_reply_content =
    ([], case fin of None \<Rightarrow> Inr full_reply_content | Some e \<Rightarrow> Inl e)"
| "stream_loop (chunk # rest) fin full_reply_content =
    (if chunk \<noteq> [] then
       (case decode_utf8 chunk of
          Inl e \<Rightarrow> ([], Inl e)
        | Inr decoded_chunk \<Rightarrow>
            (case parse_chunk decoded_chunk full_reply_content of
               Inl e \<Rightarrow> ([decoded_chunk], Inl e)
             | Inr full_reply_content' \<Rightarrow>
                 (case stream_loop rest fin full_reply_content' of
                    (out, r) \<Rightarrow> (decoded_chunk # out, r))))
     else stream_loop rest fin full_reply_content)"

text \<open>What a caller of \<^verbatim>\<open>/api/chat\<close> gets: a JSON body, an exception that left the handler,
  or a stream of chunks, cut by the exception that left the generator if there is one.\<close>

datatype reply = Returned json | Raised pyexn | Streamed "string list" "pyexn option"

definition stream_generator :: "state \<Rightarrow> backend \<Rightarrow> reply \<times> state" where
  "stream_generator st be =
    (case stream_loop (chunks be) (broken be) [] of
       (out, Inl e) \<Rightarrow> (Streamed out (Some e), st)
     | (out, Inr full_reply_content) \<Rightarrow>
         if full_reply_content \<noteq> [] then
           (Streamed out None,
            save_history_to_file
              (st\<lparr>conversation_history :=
                    conversation_history st @ [turn ''assistant'' (JStr full_reply_content)]\<rparr>))
         else (Streamed out None, st))"

definition chat :: "state \<Rightarrow> chat_request \<Rightarrow> backend \<Rightarrow> reply \<times> state" where
  "chat st chat_request be =
    (let st1 = st\<lparr>conversation_history :=
                   conversation_history st @ [turn ''user'' (JStr (message chat_request))]\<rparr>
     in if stream chat_request = Some True then stream_generator st1 be
        else
          (case post be of
             Inl e \<Rightarrow> (Raised e, st1)
           | Inr response \<Rightarrow>
               if status_code response = 200 then
                 (case response_json response of
                    Inl e \<Rightarrow> (Raised e, st1)
                  | Inr reply_data \<Rightarrow>
                      (case message_content reply_data of
                         Inl e \<Rightarrow> (Raised e, st1)
                       | Inr reply \<Rightarrow>
                           (Returned (JObj [(''response'', reply)]),
                            save_history_to_file
                              (st1\<lparr>conversation_history :=
                                     conversation_history st1
                                     @ [turn ''assistant'' reply]\<rparr>))))
               else
                 (Returned
                    (JObj [(''error'',
                            JStr (''Error '' @ str_int (status_code response) @ '': ''
                                  @ response_text response))]),
                  st1)))"

definition get_history :: "state \<Rightarrow> json" where
  "get_history st = JObj [(''history'', JArr (conversation_history st))]"

definition reset :: "state \<Rightarrow> json \<times> state" where
  "reset st =
    (JObj [(''message'', JStr ''Chat history has been reset.'')],
     save_history_to_file (reset_history st))"

text \<open>The states the process can be in: after a start that did not raise, and after any
  request to \<^verbatim>\<open>/api/chat\<close> or \<^verbatim>\<open>/api/reset\<close> from there.\<close>

inductive reachable :: "state \<Rightarrow> bool" where
  start: "startup file = Inr st \<Longrightarrow> reachable st"
| chat_step: "reachable st \<Longrightarrow> chat st chat_request be = (r, st') \<Longrightarrow> reachable st'"
| reset_step: "reachable st \<Longrightarrow> reset st = (r, st') \<Longrightarrow> reachable st'"

section \<open>Notions the properties are stated with\<close>

text \<open>The history is not empty and \<^verbatim>\<open>.get("role")\<close> of its first element is
  \<^verbatim>\<open>"system"\<close>.\<close>

definition has_system_first :: "json list \<Rightarrow> bool" where
  "has_system_first h =
    (case h of
       [] \<Rightarrow> False
     | first # _ \<Rightarrow> py_get first ''role'' JNull = Inr (JStr ''system''))"

text \<open>The state with the user's turn appended.\<close>

definition user_appended :: "state \<Rightarrow> chat_request \<Rightarrow> state" where
  "user_appended st chat_request =
    st\<lparr>conversation_history :=
         conversation_history st @ [turn ''user'' (JStr (message chat_request))]\<rparr>"

text \<open>The state a process starts in when there is no \<^verbatim>\<open>chatlog.json\<close>.\<close>

definition fresh :: state where
  "fresh = \<lparr>conversation_history = [turn ''system'' (JStr SYSTEM_PROMPT)], chatlog = None\<rparr>"

text \<open>The request \<^verbatim>\<open>{"message": m, "stream": b}\<close>, the other fields at their defaults, and a
  backend that answers a buffered call with the given response.\<close>

definition request :: "string \<Rightarrow> bool \<Rightarrow> chat_request" where
  "request m b =
    \<lparr>message = m, model = Some ''tinyllama'', stream = Some b, temperature = Some ''0.7''\<rparr>"

definition answering :: "http_response \<Rightarrow> backend" where
  "answering response = \<lparr>post = Inr response, chunks = [], broken = None\<rparr>"

text \<open>A backend that streams the given chunks and then ends the stream.\<close>

definition streaming :: "string list \<Rightarrow> backend" where
  "streaming cs = \<lparr>post = Inl ConnectError, chunks = cs, broken = None\<rparr>"

text \<open>The body of the buffered scenario of the tests.\<close>

definition hello_body :: string where
  \<open>hello_body = ''{"message":{"content":"Hello there!"}}''\<close>

text \<open>What a streamed chunk contributes to the reply: the \<^verbatim>\<open>content\<close> of its \<^verbatim>\<open>message\<close>
  when the chunk, trimmed, is a JSON object with such a text, and nothing otherwise.\<close>

definition fragment :: "string \<Rightarrow> string" where
  "fragment chunk =
    (case json_loads (strip chunk) of
       Inr (JObj d) \<Rightarrow>
         (case map_of d ''message'' of
            Some (JObj m) \<Rightarrow> (case map_of m ''content'' of Some (JStr c) \<Rightarrow> c | _ \<Rightarrow> [])
          | _ \<Rightarrow> [])
     | _ \<Rightarrow> [])"

text \<open>The chunks on which the loop of \<^verbatim>\<open>stream_generator\<close> raises nothing: valid UTF-8 that,
  trimmed, is blank, is not JSON, or is an object whose \<^verbatim>\<open>message\<close> is absent or is an object
  whose \<^verbatim>\<open>content\<close> is absent, false in a test, or a text; and of at most 500 bytes, so that
  parsing can reach neither the recursion limit nor the limit on the digits of an integer.\<close>

definition benign :: "string \<Rightarrow> bool" where
  "benign chunk =
    (utf8_valid chunk \<and> length chunk \<le> 500 \<and>
     (case json_loads (strip chunk) of
        Inl e \<Rightarrow> True
      | Inr json_line \<Rightarrow>
          (case json_line of
             JObj d \<Rightarrow>
               (case map_of d ''message'' of
                  None \<Rightarrow> True
                | Some x \<Rightarrow>
                    (case x of
                       JObj m \<Rightarrow>
                         (case map_of m ''content'' of
                            None \<Rightarrow> True
                          | Some c \<Rightarrow> (case c of JStr t \<Rightarrow> True | _ \<Rightarrow> \<not> truthy c))
                     | _ \<Rightarrow> False))
           | _ \<Rightarrow> False)))"

text \<open>Chunks of a streamed reply: a whole line, a line cut inside the two bytes of
  \<^verbatim>\<open>U+00E9\<close>, a line whose \<^verbatim>\<open>message\<close> is \<^verbatim>\<open>null\<close>, and a line with an empty content.\<close>

definition hi_chunk :: string where
  \<open>hi_chunk = ''{"message":{"content":"Hi"}}'' @ [CHR 0x0A]\<close>

definition cafe_head :: string where
  \<open>cafe_head = ''{"message":{"content":"caf'' @ [CHR 0xC3]\<close>

definition cafe_tail :: string where
  \<open>cafe_tail = [CHR 0xA9] @ ''"}}'' @ [CHR 0x0A]\<close>

definition null_chunk :: string where
  \<open>null_chunk = ''{"message":null}'' @ [CHR 0x0A]\<close>

definition empty_content_chunk :: string where
  \<open>empty_content_chunk = ''{"message":{"content":""}}'' @ [CHR 0x0A]\<close>

text \<open>The two chunks of the streamed scenario of the tests.\<close>

definition hello_chunk :: string where
  \<open>hello_chunk = ''{"message": {"role": "assistant", "content": "Hello "}}'' @ [CHR 0x0A]\<close>

definition world_chunk :: string where
  \<open>world_chunk = ''{"message": {"role": "assistant", "content": "World"}}'' @ [CHR 0x0A]\<close>

text \<open>A turn as the specification has it: the dict of a role among \<^verbatim>\<open>system\<close>, \<^verbatim>\<open>user\<close> and
  \<^verbatim>\<open>assistant\<close> and of a content that is a text (a \<open>string\<close> stands for a text when it is
  valid UTF-8). A well-formed turn sequence is a list of turns that is not empty and whose
  first element has the role \<^verbatim>\<open>system\<close>.\<close>

fun is_turn :: "json \<Rightarrow> bool" where
  "is_turn (JObj [(k, JStr role), (k', JStr content)]) =
    (k = ''role'' \<and> k' = ''content''
     \<and> (role = ''system'' \<or> role = ''user'' \<or> role = ''assistant'')
     \<and> utf8_valid content)"
| "is_turn _ = False"

definition well_formed :: "json list \<Rightarrow> bool" where
  "well_formed h = (h \<noteq> [] \<and> list_all is_turn h \<and> has_system_first h)"

section \<open>Properties\<close>

lemma startup_None: "startup None = Inr fresh"
  by (simp add: startup_def load_history_from_file_def reset_history_def fresh_def)

lemma reachable_fresh: "reachable fresh"
  using startup_None by (rule reachable.start)

lemma chat_history:
  "chat st chat_request be = (r, st') \<Longrightarrow>
     \<exists>ts. conversation_history st' = conversation_history st @ ts"
  unfolding chat_def stream_generator_def save_history_to_file_def
  by (auto simp: Let_def split: if_splits sum.splits prod.splits)

lemma has_system_first_append: "has_system_first h \<Longrightarrow> has_system_first (h @ ts)"
  by (cases h) (auto simp: has_system_first_def)

lemma startup_system_first:
  "startup f = Inr st \<Longrightarrow> has_system_first (conversation_history st)"
  unfolding startup_def load_history_from_file_def read_history_def reset_history_def
    has_system_first_def turn_def
  by (auto simp: Let_def py_get_def
      split: option.splits sum.splits if_splits json.splits list.splits)

lemma reset_system_first:
  "reset st = (r, st') \<Longrightarrow> has_system_first (conversation_history st')"
  by (auto simp: reset_def reset_history_def save_history_to_file_def has_system_first_def
      turn_def py_get_def)

text \<open>
  C4. In buffered mode, when the backend answers with a status \<open>s\<close> other than 200 and body
  \<open>b\<close>, the handler returns \<^verbatim>\<open>{"error": "Error s: b"}\<close> and raises nothing; the state
  afterwards is the state before with the user's turn appended and nothing else changed: no
  assistant turn, and \<^verbatim>\<open>chatlog.json\<close> not written.
\<close>

theorem buffered_error_status:
  assumes "stream chat_request \<noteq> Some True"
    and "post be = Inr response"
    and "status_code response \<noteq> 200"
  shows "chat st chat_request be =
    (Returned (JObj [(''error'', JStr (''Error '' @ str_int (status_code response) @ '': ''
                                        @ response_text response))]),
     user_appended st chat_request)"
  using assms by (simp add: chat_def user_appended_def)

lemma str_int_500: "str_int 500 = ''500''"
  by code_simp

theorem buffered_error_status_witness:
  "chat fresh (request ''Hi'' False)
     (answering \<lparr>status_code = 500, response_text = ''oops'',
                  response_json = Inl JSONDecodeError\<rparr>)
   = (Returned (JObj [(''error'', JStr ''Error 500: oops'')]),
      \<lparr>conversation_history =
         [turn ''system'' (JStr SYSTEM_PROMPT), turn ''user'' (JStr ''Hi'')],
       chatlog = None\<rparr>)"
  using buffered_error_status [of "request ''Hi'' False"
      "answering \<lparr>status_code = 500, response_text = ''oops'',
                   response_json = Inl JSONDecodeError\<rparr>"
      "\<lparr>status_code = 500, response_text = ''oops'', response_json = Inl JSONDecodeError\<rparr>"
      fresh]
  by (simp add: request_def answering_def user_appended_def fresh_def str_int_500)

lemma hello_body_json:
  "json_loads hello_body = Inr (JObj [(''message'', JObj [(''content'', JStr ''Hello there!'')])])"
  by code_simp

text \<open>
  C7. The buffered scenario: from the conversation that holds the system turn only, the
  request \<^verbatim>\<open>{"message": "Hi", "stream": false}\<close> answered with status 200 and the body
  \<^verbatim>\<open>{"message":{"content":"Hello there!"}}\<close> returns \<^verbatim>\<open>{"response": "Hello there!"}\<close>; the
  history then has three entries, the third is the assistant's turn with that content, and
  \<^verbatim>\<open>chatlog.json\<close> holds the dump of this very history, written before the handler returns.
\<close>

theorem buffered_scenario:
  "(case chat fresh (request ''Hi'' False)
           (answering \<lparr>status_code = 200, response_text = hello_body,
                        response_json = json_loads hello_body\<rparr>) of
      (r, st') \<Rightarrow>
        r = Returned (JObj [(''response'', JStr ''Hello there!'')])
        \<and> conversation_history st' =
            [turn ''system'' (JStr SYSTEM_PROMPT), turn ''user'' (JStr ''Hi''),
             turn ''assistant'' (JStr ''Hello there!'')]
        \<and> length (conversation_history st') = 3
        \<and> py_getitem (conversation_history st' ! 2) ''content'' = Inr (JStr ''Hello there!'')
        \<and> chatlog st' = Some (json_dump (JArr (conversation_history st'))))"
  by (simp add: chat_def request_def answering_def fresh_def hello_body_json
      message_content_def py_getitem_def save_history_to_file_def turn_def)

text \<open>
  C8. In every state the process can reach from a start that did not raise, by any sequence of
  chat requests (buffered or streamed, whatever the backend does) and resets, the conversation
  is not empty and its first element has the role \<^verbatim>\<open>"system"\<close>.
\<close>

theorem system_first: "reachable st \<Longrightarrow> has_system_first (conversation_history st)"
proof (induction rule: reachable.induct)
  case (start f st)
  then show ?case by (rule startup_system_first)
next
  case (chat_step st chat_request be r st')
  from chat_history [OF chat_step.hyps(2)]
  obtain ts where "conversation_history st' = conversation_history st @ ts" ..
  with chat_step.IH show ?case by (simp add: has_system_first_append)
next
  case (reset_step st r st')
  then show ?case by (auto dest: reset_system_first)
qed

theorem system_first_witness: "reachable fresh \<and> has_system_first (conversation_history fresh)"
  using system_first [OF reachable_fresh] reachable_fresh by simp

text \<open>
  C5, as the claim states it, fails: a buffered request whose call to the backend times out is
  not answered with a payload, the exception leaves the handler.
\<close>

theorem buffered_timeout_raised:
  "chat fresh (request ''Hi'' False) \<lparr>post = Inl TimeoutException, chunks = [], broken = None\<rparr>
   = (Raised TimeoutException,
      \<lparr>conversation_history =
         [turn ''system'' (JStr SYSTEM_PROMPT), turn ''user'' (JStr ''Hi'')],
       chatlog = None\<rparr>)"
  by (simp add: chat_def request_def fresh_def)

text \<open>
  C5, amended. The buffered path handles no exception. An exception of the call to the backend
  (a timeout, a refused connection), an exception of \<^verbatim>\<open>response.json()\<close> on a status-200
  response and an exception of \<^verbatim>\<open>reply_data["message"]["content"]\<close> (\<^verbatim>\<open>KeyError\<close> when the
  body is an object without \<^verbatim>\<open>message\<close>) each leave the handler as that exception; the user's
  turn stays appended, no assistant turn is appended and nothing is written.
\<close>

theorem buffered_failures_raised:
  assumes "stream chat_request \<noteq> Some True"
  shows "(post be = Inl e \<longrightarrow>
            chat st chat_request be = (Raised e, user_appended st chat_request))
    \<and> (post be = Inr response \<and> status_code response = 200
         \<and> response_json response = Inl e \<longrightarrow>
            chat st chat_request be = (Raised e, user_appended st chat_request))
    \<and> (post be = Inr response \<and> status_code response = 200
         \<and> response_json response = Inr reply_data \<and> message_content reply_data = Inl e \<longrightarrow>
            chat st chat_request be = (Raised e, user_appended st chat_request))
    \<and> (post be = Inr response \<and> status_code response = 200
         \<and> response_json response = Inr (JObj d) \<and> map_of d ''message'' = None \<longrightarrow>
            chat st chat_request be = (Raised KeyError, user_appended st chat_request))"
  using assms
  by (simp add: chat_def user_appended_def message_content_def py_getitem_def)

theorem buffered_failures_raised_witness:
  "chat fresh (request ''Hi'' False) \<lparr>post = Inl ConnectError, chunks = [], broken = None\<rparr>
     = (Raised ConnectError, user_appended fresh (request ''Hi'' False))
   \<and> chat fresh (request ''Hi'' False)
       (answering \<lparr>status_code = 200, response_text = ''{}'', response_json = Inr (JObj [])\<rparr>)
     = (Raised KeyError, user_appended fresh (request ''Hi'' False))"
  using buffered_failures_raised [where chat_request = "request ''Hi'' False"
      and be = "\<lparr>post = Inl ConnectError, chunks = [], broken = None\<rparr>"
      and e = ConnectError and st = fresh]
    buffered_failures_raised [where chat_request = "request ''Hi'' False"
      and be = "answering \<lparr>status_code = 200, response_text = ''{}'',
                            response_json = Inr (JObj [])\<rparr>"
      and response = "\<lparr>status_code = 200, response_text = ''{}'',
                       response_json = Inr (JObj [])\<rparr>"
      and st = fresh and d = "[]"]
  by (simp add: request_def answering_def)

lemma json_loads_Nil: "json_loads [] = Inl JSONDecodeError"
  by (simp add: json_loads_def skip_ws_def)

lemma json_loads_error: "json_loads s = Inl e \<Longrightarrow> e = JSONDecodeError"
  by (auto simp: json_loads_def split: option.splits if_splits)

lemma strip_Nil: "strip [] = []"
  by code_simp

lemma fragment_Nil: "fragment [] = []"
  by (simp add: fragment_def strip_Nil json_loads_Nil)

lemma parse_chunk_benign:
  assumes "benign chunk"
  shows "parse_chunk chunk acc = Inr (acc @ fragment chunk)"
proof (cases "json_loads (strip chunk)")
  case (Inl e)
  then have "e = JSONDecodeError"
    by (rule json_loads_error)
  with Inl show ?thesis
    by (simp add: parse_chunk_def fragment_def Let_def)
next
  case (Inr v)
  then have ne: "strip chunk \<noteq> []"
    using json_loads_Nil by auto
  show ?thesis
  proof (cases v)
    case (JObj d)
    note v = this
    show ?thesis
    proof (cases "map_of d ''message''")
      case None
      with Inr v ne show ?thesis
        by (simp add: parse_chunk_def fragment_def Let_def py_get_def)
    next
      case (Some x)
      note x = this
      show ?thesis
      proof (cases x)
        case (JObj m)
        note m = this
        show ?thesis
        proof (cases "map_of m ''content''")
          case None
          with Inr v x m ne show ?thesis
            by (simp add: parse_chunk_def fragment_def Let_def py_get_def)
        next
          case (Some c)
          with assms Inr v x m ne show ?thesis
            by (cases c)
              (simp_all add: benign_def parse_chunk_def fragment_def Let_def py_get_def
                message_content_def py_getitem_def py_str_add_def)
        qed
      qed (insert assms Inr v x, simp_all add: benign_def)
    qed
  qed (insert assms Inr, simp_all add: benign_def)
qed

lemma stream_loop_benign:
  "list_all benign cs \<Longrightarrow>
     stream_loop cs fin acc =
       (filter (\<lambda>c. c \<noteq> []) cs,
        case fin of None \<Rightarrow> Inr (acc @ concat (map fragment cs)) | Some e \<Rightarrow> Inl e)"
proof (induction cs arbitrary: acc)
  case Nil
  show ?case by (simp split: option.splits)
next
  case (Cons c cs)
  then have c: "benign c" and cs: "list_all benign cs"
    by simp_all
  show ?case
  proof (cases "c = []")
    case True
    with Cons.IH [OF cs, of acc] show ?thesis
      by (cases fin) (simp_all add: fragment_Nil)
  next
    case False
    from c have "decode_utf8 c = Inr c"
      by (simp add: benign_def decode_utf8_def)
    with False parse_chunk_benign [OF c, of acc] Cons.IH [OF cs, of "acc @ fragment c"]
    show ?thesis
      by (cases fin) simp_all
  qed
qed

lemma cafe_split_aborts:
  "stream_loop [cafe_head, cafe_tail] None [] = ([], Inl UnicodeDecodeError)"
  by code_simp

lemma null_chunk_aborts:
  "stream_loop [null_chunk, hi_chunk] None [] = ([null_chunk], Inl AttributeError)"
  by code_simp

lemma split_then_line:
  "stream_loop [cafe_head, cafe_tail, hi_chunk] None [] = ([], Inl UnicodeDecodeError)"
  by code_simp

lemma line_null_line:
  "stream_loop [hi_chunk, null_chunk, hi_chunk] None []
     = ([hi_chunk, null_chunk], Inl AttributeError)"
  by code_simp

lemma hi_then_split:
  "stream_loop [hi_chunk, cafe_head, cafe_tail] None [] = ([hi_chunk], Inl UnicodeDecodeError)"
  by code_simp

lemma hi_then_split_fragments:
  "concat (map fragment [hi_chunk, cafe_head, cafe_tail]) = ''Hi''"
  by code_simp

lemma startup_one: "startup (Some ''[1]'') = Inl AttributeError"
  by code_simp

lemma startup_bad_utf8: "startup (Some [CHR 0xFF]) = Inl UnicodeDecodeError"
  by code_simp

lemma empty_content_loop:
  "stream_loop [empty_content_chunk] None [] = ([empty_content_chunk], Inr [])"
  by code_simp

lemma empty_content_json:
  "json_loads (strip empty_content_chunk)
     = Inr (JObj [(''message'', JObj [(''content'', JStr [])])])"
  by code_simp

lemma scenario_chunks:
  "list_all benign [hello_chunk, world_chunk]
   \<and> fragment hello_chunk = ''Hello '' \<and> fragment world_chunk = ''World''"
  by code_simp

text \<open>
  C1, at a stream the backend can send: a whole line with the content \<^verbatim>\<open>Hi\<close>, then a line
  with \<^verbatim>\<open>U+00E9\<close> in its content, cut between the two bytes of that character. The contents
  of the chunks that parse add up to \<^verbatim>\<open>Hi\<close>, which is not empty; but decoding the second
  chunk raises \<^verbatim>\<open>UnicodeDecodeError\<close>, the generator ends there, and the state afterwards
  holds the user's turn and no assistant turn.
\<close>

theorem streamed_reply_lost:
  "concat (map fragment [hi_chunk, cafe_head, cafe_tail]) = ''Hi''
   \<and> chat fresh (request ''Hi'' True) (streaming [hi_chunk, cafe_head, cafe_tail])
     = (Streamed [hi_chunk] (Some UnicodeDecodeError), user_appended fresh (request ''Hi'' True))"
  using hi_then_split_fragments
  by (simp add: chat_def stream_generator_def request_def streaming_def user_appended_def
      hi_then_split del: stream_loop.simps)

text \<open>
  C2, at two streams. A line cut between the two bytes of \<^verbatim>\<open>U+00E9\<close>, followed by a whole
  line: the first chunk is decoded before it is yielded, decoding raises
  \<^verbatim>\<open>UnicodeDecodeError\<close>, and the caller receives none of the three chunks. A whole line, a
  line \<^verbatim>\<open>{"message":null}\<close> and a whole line: the second chunk is forwarded, parsing it raises
  \<^verbatim>\<open>AttributeError\<close>, and the third chunk is never forwarded.
\<close>

theorem chunks_not_forwarded:
  "fst (chat fresh (request ''Hi'' True) (streaming [cafe_head, cafe_tail, hi_chunk]))
     = Streamed [] (Some UnicodeDecodeError)
   \<and> fst (chat fresh (request ''Hi'' True) (streaming [hi_chunk, null_chunk, hi_chunk]))
     = Streamed [hi_chunk, null_chunk] (Some AttributeError)"
  by (simp add: chat_def stream_generator_def request_def streaming_def
      split_then_line line_null_line del: stream_loop.simps)

text \<open>
  C3, at two streams. A line cut between the two bytes of \<^verbatim>\<open>U+00E9\<close>: decoding the first
  chunk raises \<^verbatim>\<open>UnicodeDecodeError\<close> before anything is forwarded, and the second chunk is
  never relayed. A line \<^verbatim>\<open>{"message":null}\<close>, which parses and has no content, followed by a
  whole line: \<^verbatim>\<open>.get\<close> on \<^verbatim>\<open>None\<close> raises \<^verbatim>\<open>AttributeError\<close>, which the handler for
  \<^verbatim>\<open>JSONDecodeError\<close> does not catch, and the line after it is never relayed.
\<close>

theorem malformed_chunk_aborts:
  "chat fresh (request ''Hi'' True) (streaming [cafe_head, cafe_tail])
     = (Streamed [] (Some UnicodeDecodeError), user_appended fresh (request ''Hi'' True))
   \<and> chat fresh (request ''Hi'' True) (streaming [null_chunk, hi_chunk])
     = (Streamed [null_chunk] (Some AttributeError), user_appended fresh (request ''Hi'' True))"
  by (simp add: chat_def stream_generator_def request_def streaming_def user_appended_def
      cafe_split_aborts null_chunk_aborts del: stream_loop.simps)

text \<open>
  C6, at two files. With \<^verbatim>\<open>[1]\<close> in \<^verbatim>\<open>chatlog.json\<close>, a list whose first element has no role
  \<^verbatim>\<open>"system"\<close>, \<^verbatim>\<open>loaded_history[0].get\<close> raises \<^verbatim>\<open>AttributeError\<close>; with the byte
  \<^verbatim>\<open>0xFF\<close>, reading the file raises \<^verbatim>\<open>UnicodeDecodeError\<close>. Neither is caught by
  \<^verbatim>\<open>except (json.JSONDecodeError, TypeError)\<close>, so the import of the module fails.
\<close>

theorem startup_fails:
  "startup (Some ''[1]'') = Inl AttributeError
   \<and> startup (Some [CHR 0xFF]) = Inl UnicodeDecodeError"
  by (simp add: startup_one startup_bad_utf8)

lemma empty_reply_writable:
  "utf8_valid (json_dump (JArr (conversation_history fresh
     @ [turn ''user'' (JStr ''Hi''), turn ''assistant'' (JStr [])])))"
  by code_simp

text \<open>
  C10. In buffered mode a status-200 response whose \<^verbatim>\<open>message.content\<close> is the empty text is
  committed: the reply is \<^verbatim>\<open>{"response": ""}\<close>, the history afterwards is the history before
  with the user's turn and an assistant turn of empty content appended, and \<^verbatim>\<open>chatlog.json\<close>
  holds the dump of this history (the history being one that can be encoded). In streamed
  mode a chunk whose \<^verbatim>\<open>message.content\<close> is the empty text leaves the collected reply as it
  was, and a stream that ends with an empty collected reply appends the user's turn only and
  leaves \<^verbatim>\<open>chatlog.json\<close> as it was.
\<close>

theorem empty_reply_committed:
  "(stream chat_request \<noteq> Some True \<and> post be = Inr response \<and> status_code response = 200
      \<and> response_json response = Inr reply_data
      \<and> message_content reply_data = Inr (JStr [])
      \<and> utf8_valid (json_dump (JArr (conversation_history st
            @ [turn ''user'' (JStr (message chat_request)), turn ''assistant'' (JStr [])]))) \<longrightarrow>
        (case chat st chat_request be of
           (r, st') \<Rightarrow>
             r = Returned (JObj [(''response'', JStr [])])
             \<and> conversation_history st' = conversation_history st
                 @ [turn ''user'' (JStr (message chat_request)), turn ''assistant'' (JStr [])]
             \<and> chatlog st' = Some (json_dump (JArr (conversation_history st')))))
   \<and> (json_loads (strip chunk) = Inr json_line
      \<and> message_content json_line = Inr (JStr []) \<longrightarrow>
        parse_chunk chunk acc = Inr acc)
   \<and> (stream chat_request = Some True
      \<and> stream_loop (chunks be) (broken be) [] = (out, Inr []) \<longrightarrow>
        (case chat st chat_request be of
           (r, st') \<Rightarrow>
             r = Streamed out None
             \<and> conversation_history st' = conversation_history st
                 @ [turn ''user'' (JStr (message chat_request))]
             \<and> chatlog st' = chatlog st))"
  by (auto simp: chat_def stream_generator_def save_history_to_file_def
      parse_chunk_def message_content_def py_getitem_def py_get_def Let_def json_loads_Nil
      split: json.splits option.splits sum.splits)

theorem empty_reply_committed_witness:
  "(case chat fresh (request ''Hi'' False)
       (answering \<lparr>status_code = 200, response_text = empty_content_chunk,
                    response_json = json_loads (strip empty_content_chunk)\<rparr>) of
      (r, st') \<Rightarrow>
        r = Returned (JObj [(''response'', JStr [])])
        \<and> conversation_history st' =
            [turn ''system'' (JStr SYSTEM_PROMPT), turn ''user'' (JStr ''Hi''),
             turn ''assistant'' (JStr [])]
        \<and> chatlog st' = Some (json_dump (JArr (conversation_history st'))))
   \<and> parse_chunk empty_content_chunk ''Hello'' = Inr ''Hello''
   \<and> (case chat fresh (request ''Hi'' True) (streaming [empty_content_chunk]) of
        (r, st') \<Rightarrow>
          r = Streamed [empty_content_chunk] None
          \<and> conversation_history st' =
              [turn ''system'' (JStr SYSTEM_PROMPT), turn ''user'' (JStr ''Hi'')]
          \<and> chatlog st' = None)"
  using empty_reply_committed [where chat_request = "request ''Hi'' False"
      and be = "answering \<lparr>status_code = 200, response_text = empty_content_chunk,
                    response_json = json_loads (strip empty_content_chunk)\<rparr>"
      and response = "\<lparr>status_code = 200, response_text = empty_content_chunk,
                    response_json = json_loads (strip empty_content_chunk)\<rparr>"
      and reply_data = "JObj [(''message'', JObj [(''content'', JStr [])])]"
      and st = fresh and chunk = empty_content_chunk
      and json_line = "JObj [(''message'', JObj [(''content'', JStr [])])]"
      and acc = "''Hello''"]
    empty_reply_committed [where chat_request = "request ''Hi'' True"
      and be = "streaming [empty_content_chunk]" and st = fresh
      and out = "[empty_content_chunk]"]
    empty_reply_writable
  by (simp add: request_def answering_def streaming_def empty_content_json
      empty_content_loop message_content_def py_getitem_def fresh_def
      del: stream_loop.simps utf8_valid.simps)

lemma scenario_writable:
  "utf8_valid (json_dump (JArr (conversation_history fresh
     @ [turn ''user'' (JStr ''Hi stream''), turn ''assistant'' (JStr ''Hello World'')])))"
  by code_simp

text \<open>
  The commit of a streamed reply, where the stream goes through: when no chunk makes the
  generator raise and the backend ends the stream, the caller receives the chunks that are not
  empty and the collected reply is the contents of the chunks in order. If it is empty, the
  history gains the user's turn only and \<^verbatim>\<open>chatlog.json\<close> is left as it was; otherwise (the
  history with the reply being one that can be encoded) the history gains the user's turn and
  one assistant turn with the collected reply, and \<^verbatim>\<open>chatlog.json\<close> holds the dump of this
  history.
\<close>

theorem streamed_reply_committed:
  assumes "stream chat_request = Some True"
    and "list_all benign (chunks be)"
    and "broken be = None"
    and "utf8_valid (json_dump (JArr (conversation_history st
           @ [turn ''user'' (JStr (message chat_request)),
              turn ''assistant'' (JStr (concat (map fragment (chunks be))))])))"
  shows "(case chat st chat_request be of
      (r, st') \<Rightarrow>
        r = Streamed (filter (\<lambda>c. c \<noteq> []) (chunks be)) None
        \<and> (if concat (map fragment (chunks be)) = [] then
             conversation_history st' = conversation_history st
               @ [turn ''user'' (JStr (message chat_request))]
             \<and> chatlog st' = chatlog st
           else
             conversation_history st' = conversation_history st
               @ [turn ''user'' (JStr (message chat_request)),
                  turn ''assistant'' (JStr (concat (map fragment (chunks be))))]
             \<and> chatlog st' = Some (json_dump (JArr (conversation_history st')))))"
  using assms(1,3) stream_loop_benign [OF assms(2), of "broken be" "[]"]
  by (simp add: chat_def stream_generator_def save_history_to_file_def Let_def)

theorem streamed_reply_committed_witness:
  "list_all benign [hello_chunk, world_chunk]
   \<and> (case chat fresh (request ''Hi stream'' True) (streaming [hello_chunk, world_chunk]) of
        (r, st') \<Rightarrow>
          r = Streamed [hello_chunk, world_chunk] None
          \<and> conversation_history st' =
              [turn ''system'' (JStr SYSTEM_PROMPT), turn ''user'' (JStr ''Hi stream''),
               turn ''assistant'' (JStr ''Hello World'')]
          \<and> chatlog st' = Some (json_dump (JArr (conversation_history st'))))"
  using streamed_reply_committed [of "request ''Hi stream'' True"
      "streaming [hello_chunk, world_chunk]" fresh] scenario_chunks scenario_writable
  by (simp add: request_def streaming_def fresh_def hello_chunk_def world_chunk_def
      del: utf8_valid.simps)

lemma byte_char_of: "byte (char_of n) = n mod 256"
  by (simp add: byte_def)

lemma hex_val_hex_digit: "k < 16 \<Longrightarrow> hex_val (hex_digit k) = Some k"
  by (auto simp: hex_val_def hex_digit_def byte_char_of)

lemma hex_val_zero: "hex_val (CHR ''0'') = Some 0"
  by (simp add: hex_val_def byte_def)

lemma hex4_control:
  "byte c < 0x20 \<Longrightarrow>
     hex4 (CHR ''0'') (CHR ''0'') (hex_digit (byte c div 16)) (hex_digit (byte c mod 16))
       = Some (byte c)"
  by (simp add: hex4_def hex_val_zero hex_val_hex_digit)

lemma utf8_encode_byte: "byte c < 0x80 \<Longrightarrow> utf8_encode (byte c) = [c]"
  by (simp add: utf8_encode_def byte_def)

lemma escape_plain:
  "c \<noteq> CHR 0x22 \<Longrightarrow> c \<noteq> CHR 0x5C \<Longrightarrow> \<not> byte c < 0x20 \<Longrightarrow> escape_char c = [c]"
  by (auto simp: escape_char_def byte_def)

lemma unescape_escape:
  assumes "c = CHR 0x22 \<or> c = CHR 0x5C \<or> byte c < 0x20"
  shows "\<exists>e. escape_char c = CHR 0x5C # e \<and> (\<forall>rest. unescape (e @ rest) = Some ([c], rest))"
proof (cases "c = CHR 0x22 \<or> c = CHR 0x5C \<or> c = CHR 0x0A \<or> c = CHR 0x0D \<or> c = CHR 0x09
    \<or> c = CHR 0x08 \<or> c = CHR 0x0C")
  case True
  then show ?thesis
    by (auto simp: escape_char_def unescape_def simple_escape_def)
next
  case False
  with assms have lt: "byte c < 0x20"
    by simp
  from False lt have "escape_char c =
      CHR 0x5C # [CHR ''u'', CHR ''0'', CHR ''0'',
        hex_digit (byte c div 16), hex_digit (byte c mod 16)]"
    by (simp add: escape_char_def)
  moreover from lt have "unescape ([CHR ''u'', CHR ''0'', CHR ''0'',
        hex_digit (byte c div 16), hex_digit (byte c mod 16)] @ rest) = Some ([c], rest)" for rest
    by (simp add: unescape_def hex4_control utf8_encode_byte)
  ultimately show ?thesis
    by blast
qed

lemma scanstring_escape:
  "scanstring (concat (map escape_char s) @ CHR 0x22 # rest) = Some (s, rest)"
proof (induction s)
  case Nil
  show ?case by simp
next
  case (Cons c s)
  show ?case
  proof (cases "c = CHR 0x22 \<or> c = CHR 0x5C \<or> byte c < 0x20")
    case True
    from unescape_escape [OF True] obtain e where
      e: "escape_char c = CHR 0x5C # e"
      and u: "\<And>rest. unescape (e @ rest) = Some ([c], rest)"
      by blast
    from e u [of "concat (map escape_char s) @ CHR 0x22 # rest"] Cons.IH
    show ?thesis
      by (simp add: emit_def)
  next
    case False
    with escape_plain [of c] Cons.IH show ?thesis
      by (simp add: emit_def)
  qed
qed

lemma parse_value_string:
  "parse_value (encode_basestring s @ rest) = Some (JStr s, rest)"
  by (simp add: encode_basestring_def scanstring_escape)

lemma is_turnD:
  "is_turn t \<Longrightarrow>
     \<exists>role content. t = turn role (JStr content) \<and> utf8_valid content
       \<and> (role = ''system'' \<or> role = ''user'' \<or> role = ''assistant'')"
  by (erule is_turn.elims) (auto simp: turn_def)

lemma dropWhile_replicate: "P x \<Longrightarrow> dropWhile P (replicate k x @ s) = dropWhile P s"
  by (induction k) simp_all

lemma skip_ws_newline_indent: "skip_ws (newline_indent n @ s) = skip_ws s"
proof -
  have "json_ws (CHR 0x0A)" and "json_ws (CHR '' '')"
    by (simp_all add: json_ws_def)
  then show ?thesis
    by (simp add: skip_ws_def newline_indent_def dropWhile_replicate)
qed

lemma skip_ws_nonws: "\<not> json_ws c \<Longrightarrow> skip_ws (c # s) = c # s"
  by (simp add: skip_ws_def)

lemma skip_ws_space: "skip_ws (CHR '' '' # s) = skip_ws s"
  by (simp add: skip_ws_def json_ws_def)

lemma parse_two_members:
  "parse_value (''{'' @ newline_indent n @ encode_basestring k1 @ '': '' @ encode_basestring v1
       @ '','' @ newline_indent n @ encode_basestring k2 @ '': '' @ encode_basestring v2
       @ newline_indent m @ ''}'' @ rest)
     = Some (JObj (dict_set (dict_set [] k1 (JStr v1)) k2 (JStr v2)), rest)"
  by (simp add: encode_basestring_def scanstring_escape skip_ws_newline_indent skip_ws_nonws
      skip_ws_space json_ws_def)

lemma parse_turn:
  "parse_value (iterencode n (turn r (JStr c)) @ rest) = Some (turn r (JStr c), rest)"
  using parse_two_members [of "Suc n" "''role''" r "''content''" c n rest]
  by (simp add: turn_def dict_set_def)

lemma iterencode_turn_brace:
  "\<exists>x. iterencode n (turn r (JStr c)) = CHR ''{'' # x"
  by (simp add: turn_def)

lemma iterencode_list_brace:
  assumes "is_turn t"
  shows "\<exists>x. iterencode_list n (t # ts) = CHR ''{'' # x"
proof -
  from is_turnD [OF assms] obtain r c where t: "t = turn r (JStr c)"
    by blast
  from iterencode_turn_brace [of n r c] obtain x where "iterencode n t = CHR ''{'' # x"
    unfolding t by blast
  then show ?thesis
    by (cases ts) simp_all
qed

lemma parse_array_turns:
  "list_all is_turn h \<Longrightarrow> h \<noteq> [] \<Longrightarrow>
     parse_array (iterencode_list n h @ newline_indent m @ '']'' @ rest) = Some (h, rest)"
proof (induction h)
  case Nil
  then show ?case by simp
next
  case (Cons t h)
  from Cons.prems have t: "is_turn t" and h: "list_all is_turn h"
    by simp_all
  from is_turnD [OF t] obtain r c where tc: "t = turn r (JStr c)"
    by blast
  have pv: "parse_value (iterencode n t @ s) = Some (t, s)" for s
    unfolding tc by (rule parse_turn)
  from iterencode_turn_brace [of n r c] have len: "length s < length (iterencode n t @ s)" for s
    unfolding tc by auto
  show ?case
  proof (cases h)
    case Nil
    have "parse_array (iterencode n t @ newline_indent m @ '']'' @ rest) = Some ([t], rest)"
      using pv [of "newline_indent m @ '']'' @ rest"] len [of "newline_indent m @ '']'' @ rest"]
      by (subst parse_array.simps)
        (simp add: skip_ws_newline_indent skip_ws_nonws json_ws_def)
    with Nil show ?thesis
      by simp
  next
    case (Cons w vs)
    from h Cons have w: "is_turn w"
      by simp
    from iterencode_list_brace [OF w, of n vs] obtain x where
      x: "iterencode_list n (w # vs) = CHR ''{'' # x"
      by blast
    define tl where "tl = iterencode_list n (w # vs) @ newline_indent m @ '']'' @ rest"
    from Cons.IH [OF h] Cons have ih: "parse_array tl = Some (w # vs, rest)"
      by (simp add: tl_def)
    have sk: "skip_ws (newline_indent n @ tl) = tl"
      by (simp add: tl_def skip_ws_newline_indent x skip_ws_nonws json_ws_def)
    have "parse_array (iterencode n t @ '','' @ newline_indent n @ tl) = Some (t # w # vs, rest)"
      using pv [of "'','' @ newline_indent n @ tl"] len [of "'','' @ newline_indent n @ tl"]
      by (subst parse_array.simps) (simp add: ih sk skip_ws_nonws json_ws_def)
    with Cons show ?thesis
      by (simp add: tl_def)
  qed
qed

lemma json_loads_dump:
  assumes "list_all is_turn h" and "h \<noteq> []"
  shows "json_loads (json_dump (JArr h)) = Inr (JArr h)"
proof -
  from assms obtain t ts where h: "h = t # ts" and t: "is_turn t"
    by (cases h) auto
  define body where "body = iterencode_list (Suc 0) h @ newline_indent 0 @ '']''"
  from iterencode_list_brace [OF t, of "Suc 0" ts] obtain x where
    x: "body = CHR ''{'' # x"
    unfolding h body_def by auto
  have sk: "skip_ws (newline_indent (Suc 0) @ body) = body"
    by (simp add: skip_ws_newline_indent x skip_ws_nonws json_ws_def)
  from parse_array_turns [OF assms, of "Suc 0" 0 "[]"] have pa: "parse_array body = Some (h, [])"
    by (simp add: body_def)
  have "parse_value (CHR ''['' # newline_indent (Suc 0) @ body) = Some (JArr h, [])"
    using pa sk by (simp add: x)
  moreover have "json_dump (JArr h) = CHR ''['' # newline_indent (Suc 0) @ body"
    using assms(2) by (simp add: json_dump_def body_def)
  ultimately show ?thesis
    by (simp add: json_loads_def skip_ws_nonws json_ws_def skip_ws_def)
qed

lemma lstrip_bracket: "lstrip (CHR ''['' # s) = CHR ''['' # s"
  by (subst lstrip.simps) (simp add: whitespace_def)

lemma suffix_last: "suffix w (s @ [c]) \<Longrightarrow> w \<noteq> [] \<Longrightarrow> last w = c"
proof -
  assume "suffix w (s @ [c])" and w: "w \<noteq> []"
  then obtain zs where "s @ [c] = zs @ w"
    by (auto simp: suffix_def)
  then have "last (s @ [c]) = last (zs @ w)"
    by simp
  with w show ?thesis
    by simp
qed

lemma whitespace_last: "w \<in> set whitespace \<Longrightarrow> w \<noteq> [] \<and> last w \<noteq> CHR '']''"
  by (auto simp: whitespace_def)

lemma rstrip_bracket: "rstrip (s @ '']'') = s @ '']''"
proof -
  have "find (\<lambda>w. suffix w (s @ '']'')) whitespace = None"
    using suffix_last [of _ s "CHR '']''"] whitespace_last
    by (fastforce simp: find_None_iff)
  then show ?thesis
    by (subst rstrip.simps) simp
qed

lemma strip_brackets: "strip (CHR ''['' # s @ '']'') = CHR ''['' # s @ '']''"
  using rstrip_bracket [of "CHR ''['' # s"] by (simp add: strip_def lstrip_bracket)

lemma byte_hex_digit: "k < 16 \<Longrightarrow> byte (hex_digit k) < 0x80"
  by (simp add: hex_digit_def byte_char_of)

lemma escape_char_high:
  assumes "\<not> byte c < 0x80"
  shows "escape_char c = [c]"
proof -
  have "byte (CHR 0x22) < 0x80" and "byte (CHR 0x5C) < 0x80"
    by (simp_all add: byte_def)
  with assms have "c \<noteq> CHR 0x22" and "c \<noteq> CHR 0x5C"
    by auto
  moreover from assms have "\<not> byte c < 0x20"
    by simp
  ultimately show ?thesis
    by (rule escape_plain)
qed

lemma utf8_valid_low: "byte c < 0x80 \<Longrightarrow> utf8_valid (c # t) = utf8_valid t"
  by simp

lemma byte_literals:
  "byte (CHR 0x5C) < 0x80" "byte (CHR 0x22) < 0x80" "byte (CHR ''n'') < 0x80"
  "byte (CHR ''r'') < 0x80" "byte (CHR ''t'') < 0x80" "byte (CHR ''b'') < 0x80"
  "byte (CHR ''f'') < 0x80" "byte (CHR ''u'') < 0x80" "byte (CHR ''0'') < 0x80"
  by (simp_all add: byte_def)

lemma escape_char_ascii:
  assumes "byte c < 0x80"
  shows "utf8_valid (escape_char c @ t) = utf8_valid t"
proof (cases "c = CHR 0x22 \<or> c = CHR 0x5C \<or> c = CHR 0x0A \<or> c = CHR 0x0D \<or> c = CHR 0x09
    \<or> c = CHR 0x08 \<or> c = CHR 0x0C")
  case True
  then show ?thesis
    by (auto simp: escape_char_def utf8_valid_low byte_literals simp del: utf8_valid.simps)
next
  case special: False
  show ?thesis
  proof (cases "byte c < 0x20")
    case True
    then have "byte c div 16 < 16" and "byte c mod 16 < 16"
      by simp_all
    with special True show ?thesis
      by (simp add: escape_char_def utf8_valid_low byte_literals byte_hex_digit
          del: utf8_valid.simps)
  next
    case False
    with special assms show ?thesis
      by (simp add: escape_char_def utf8_valid_low del: utf8_valid.simps)
  qed
qed

lemma utf8_valid_step:
  assumes v: "utf8_valid (a # s)" and hi: "\<not> byte a < 0x80"
  shows "\<exists>p s'. a # s = p @ s' \<and> length s' < length (a # s)
           \<and> (\<forall>c\<in>set p. \<not> byte c < 0x80) \<and> utf8_valid s'
           \<and> (\<forall>x. utf8_valid (p @ x) = utf8_valid x)"
proof -
  from v hi have c2: "\<not> byte a < 0xC2"
    by (simp split: if_splits)
  consider (two) "byte a < 0xE0" | (three) "\<not> byte a < 0xE0" "byte a < 0xF0"
    | (four) "\<not> byte a < 0xF0"
    by blast
  then show ?thesis
  proof cases
    case two
    with v hi c2 obtain b s1 where s: "s = b # s1" and b: "cont b" and s1: "utf8_valid s1"
      by (auto split: list.splits)
    from hi c2 two b have "utf8_valid ([a, b] @ x) = utf8_valid x" for x
      by simp
    moreover from b have "\<not> byte b < 0x80"
      by (simp add: cont_def)
    moreover have "a # s = [a, b] @ s1"
      by (simp add: s)
    ultimately show ?thesis
      using s s1 hi by (intro exI [of _ "[a, b]"] exI [of _ s1]) (simp del: utf8_valid.simps)
  next
    case three
    with v hi c2 obtain b c s2 where s: "s = b # c # s2" and b: "cont b" and c: "cont c"
      and e0: "byte a = 0xE0 \<Longrightarrow> 0xA0 \<le> byte b" and ed: "byte a = 0xED \<Longrightarrow> byte b < 0xA0"
      and s2: "utf8_valid s2"
      by (auto split: list.splits if_splits)
    from hi c2 three b c e0 ed have "utf8_valid ([a, b, c] @ x) = utf8_valid x" for x
      by simp
    moreover from b c have "\<not> byte b < 0x80" and "\<not> byte c < 0x80"
      by (simp_all add: cont_def)
    ultimately show ?thesis
      using s s2 hi by (intro exI [of _ "[a, b, c]"] exI [of _ s2]) (simp del: utf8_valid.simps)
  next
    case four
    with v hi c2 obtain b c d s3 where s: "s = b # c # d # s3"
      and b: "cont b" and c: "cont c" and d: "cont d" and f5: "byte a < 0xF5"
      and f0: "byte a = 0xF0 \<Longrightarrow> 0x90 \<le> byte b" and f4: "byte a = 0xF4 \<Longrightarrow> byte b < 0x90"
      and s3: "utf8_valid s3"
      by (auto split: list.splits if_splits)
    from hi c2 four b c d f5 f0 f4 have "utf8_valid ([a, b, c, d] @ x) = utf8_valid x" for x
      by simp
    moreover from b c d have "\<not> byte b < 0x80" and "\<not> byte c < 0x80" and "\<not> byte d < 0x80"
      by (simp_all add: cont_def)
    ultimately show ?thesis
      using s s3 hi
      by (intro exI [of _ "[a, b, c, d]"] exI [of _ s3]) (simp del: utf8_valid.simps)
  qed
qed

lemma escape_high_bytes: "\<forall>c\<in>set p. \<not> byte c < 0x80 \<Longrightarrow> concat (map escape_char p) = p"
  by (induction p) (simp_all add: escape_char_high)

lemma utf8_valid_escape:
  "utf8_valid s \<Longrightarrow> utf8_valid (concat (map escape_char s) @ t) = utf8_valid t"
proof (induction "length s" arbitrary: s rule: less_induct)
  case less
  show ?case
  proof (cases s)
    case Nil
    then show ?thesis by simp
  next
    case (Cons a r)
    show ?thesis
    proof (cases "byte a < 0x80")
      case True
      with less.prems Cons have "utf8_valid r"
        by simp
      with less.hyps [of r] Cons have "utf8_valid (concat (map escape_char r) @ t) = utf8_valid t"
        by simp
      with escape_char_ascii [OF True, of "concat (map escape_char r) @ t"] Cons show ?thesis
        by (simp del: utf8_valid.simps)
    next
      case False
      from less.prems Cons have "utf8_valid (a # r)"
        by simp
      from utf8_valid_step [OF this False] Cons obtain p s' where
        ps: "s = p @ s'" and len: "length s' < length s"
        and hi: "\<forall>c\<in>set p. \<not> byte c < 0x80" and v: "utf8_valid s'"
        and px: "\<And>x. utf8_valid (p @ x) = utf8_valid x"
        by blast
      from less.hyps [OF len v] px [of "concat (map escape_char s') @ t"]
        escape_high_bytes [OF hi] ps
      show ?thesis
        by (simp del: utf8_valid.simps)
    qed
  qed
qed

lemma byte_punctuation:
  "byte (CHR '':'') < 0x80" "byte (CHR '' '') < 0x80" "byte (CHR '','') < 0x80"
  "byte (CHR ''{'') < 0x80" "byte (CHR ''}'') < 0x80" "byte (CHR ''['') < 0x80"
  "byte (CHR '']'') < 0x80" "byte (CHR 0x0A) < 0x80"
  by (simp_all add: byte_def)

lemma utf8_valid_basestring:
  "utf8_valid s \<Longrightarrow> utf8_valid (encode_basestring s @ t) = utf8_valid t"
  by (simp add: encode_basestring_def utf8_valid_low byte_literals utf8_valid_escape
      del: utf8_valid.simps)

lemma utf8_valid_replicate:
  "byte c < 0x80 \<Longrightarrow> utf8_valid (replicate k c @ t) = utf8_valid t"
  by (induction k) (simp_all add: utf8_valid_low del: utf8_valid.simps)

lemma utf8_valid_indent: "utf8_valid (newline_indent n @ t) = utf8_valid t"
  by (simp add: newline_indent_def utf8_valid_replicate utf8_valid_low byte_punctuation
      del: utf8_valid.simps)

lemma utf8_valid_keys: "utf8_valid ''role''" "utf8_valid ''content''"
  "utf8_valid ''system''" "utf8_valid ''user''" "utf8_valid ''assistant''"
  by (simp_all add: byte_def)

lemma utf8_valid_turn:
  assumes "is_turn x"
  shows "utf8_valid (iterencode n x @ t) = utf8_valid t"
proof -
  from is_turnD [OF assms] obtain r c where x: "x = turn r (JStr c)"
    and c: "utf8_valid c" and r: "utf8_valid r"
    by (auto simp: utf8_valid_keys simp del: utf8_valid.simps)
  show ?thesis
    by (simp add: x turn_def utf8_valid_basestring utf8_valid_indent utf8_valid_low
        byte_punctuation utf8_valid_keys c r del: utf8_valid.simps)
qed

lemma utf8_valid_turns:
  "list_all is_turn h \<Longrightarrow> utf8_valid (iterencode_list n h @ t) = utf8_valid t"
proof (induction h)
  case Nil
  show ?case by simp
next
  case (Cons x h)
  then have x: "is_turn x" and h: "list_all is_turn h"
    by simp_all
  show ?case
  proof (cases h)
    case Nil
    with utf8_valid_turn [OF x] show ?thesis
      by (simp del: utf8_valid.simps iterencode.simps)
  next
    case (Cons w vs)
    with Cons.IH [OF h] utf8_valid_turn [OF x, of n "'','' @ newline_indent n @ iterencode_list n (w # vs) @ t"]
    show ?thesis
      by (simp add: utf8_valid_indent utf8_valid_low byte_punctuation
          del: utf8_valid.simps iterencode.simps)
  qed
qed

lemma utf8_valid_dump: "list_all is_turn h \<Longrightarrow> utf8_valid (json_dump (JArr h))"
  using utf8_valid_turns [of h "Suc 0" "newline_indent 0 @ '']''"]
  by (simp add: json_dump_def utf8_valid_indent utf8_valid_low byte_punctuation
      del: utf8_valid.simps(2))

lemma read_history_dump:
  assumes "well_formed h"
  shows "read_history st' (json_dump (JArr h)) = Inr (st'\<lparr>conversation_history := h\<rparr>)"
proof -
  from assms have ne: "h \<noteq> []" and turns: "list_all is_turn h" and sys: "has_system_first h"
    by (simp_all add: well_formed_def)
  from ne obtain first rest where h: "h = first # rest"
    by (cases h) auto
  from sys have role: "py_get first ''role'' JNull = Inr (JStr ''system'')"
    by (simp add: h has_system_first_def)
  define dumped where "dumped = json_dump (JArr h)"
  from ne have "dumped = CHR ''['' # (newline_indent (Suc 0) @ iterencode_list (Suc 0) h
      @ newline_indent 0) @ '']''"
    by (simp add: dumped_def json_dump_def)
  then have strip: "strip dumped = dumped" and nonempty: "dumped \<noteq> []"
    using strip_brackets [of "newline_indent (Suc 0) @ iterencode_list (Suc 0) h @ newline_indent 0"]
    by simp_all
  from utf8_valid_dump [OF turns] have decode: "decode_utf8 dumped = Inr dumped"
    by (simp add: decode_utf8_def dumped_def)
  from json_loads_dump [OF turns ne] have loads: "json_loads dumped = Inr (JArr (first # rest))"
    by (simp add: dumped_def h)
  from decode strip nonempty loads role show ?thesis
    unfolding dumped_def [symmetric] by (simp add: read_history_def h)
qed

lemma well_formed_example:
  "well_formed [turn ''system'' (JStr SYSTEM_PROMPT), turn ''user'' (JStr ''Hi'')]"
  by code_simp

text \<open>
  C9. For every state whose conversation is a well-formed turn sequence (not empty, every
  element a turn, the first with role \<^verbatim>\<open>"system"\<close>), writing the history and loading it again
  raises nothing and gives the same conversation: \<^verbatim>\<open>load_history_from_file\<close> after
  \<^verbatim>\<open>save_history_to_file\<close> leaves the state as it is, and a process started on the written
  file starts with this conversation.
\<close>

theorem persist_restore:
  assumes "well_formed (conversation_history st)"
  shows "load_history_from_file (save_history_to_file st) = Inr (save_history_to_file st)
    \<and> startup (chatlog (save_history_to_file st))
      = Inr \<lparr>conversation_history = conversation_history st,
             chatlog = chatlog (save_history_to_file st)\<rparr>"
  using read_history_dump [OF assms]
  by (simp add: load_history_from_file_def startup_def save_history_to_file_def)

theorem persist_restore_witness:
  "well_formed (conversation_history (user_appended fresh (request ''Hi'' False)))
   \<and> load_history_from_file (save_history_to_file (user_appended fresh (request ''Hi'' False)))
     = Inr (save_history_to_file (user_appended fresh (request ''Hi'' False)))"
  using persist_restore [of "user_appended fresh (request ''Hi'' False)"] well_formed_example
  by (simp add: user_appended_def fresh_def request_def)

end
